theory Spec2Isabelle
  imports Main "HOL-Library.AList" "HOL-Library.Sublist"
begin

section \<open>The SSR theme manager (package ssr)\<close>

text \<open>
  The manager owns a Go map from theme name to the running Node.js process of that
  theme. The map is modelled as an association list: a lookup is \<open>map_of\<close>, an
  assignment is \<open>AList.update\<close>, \<open>delete\<close> is \<open>AList.delete\<close>, and a \<open>range\<close> loop
  visits the entries in list order (Go leaves the order open; the theorems hold for
  every order). A Go map has one entry per key: \<open>wf_registry\<close>.

  Everything the manager does to the outside world is written to an event log kept in
  the manager state, the mutex operations included, so that the order of the calls can
  be stated. The outside world itself (file system, process table, clock) is the
  parameter \<open>os_env\<close>.
\<close>

type_synonym pid = nat

text \<open>\<open>runningTheme\<close>: \<open>cmd_process\<close> is \<open>rt.cmd.Process\<close>, \<open>None\<close> for a nil handle.\<close>

record runningTheme =
  cmd_process :: "pid option"
  port :: int
  startedAt :: nat

type_synonym registry = "(string \<times> runningTheme) list"

datatype event =
    Lock | Unlock | RLock | RUnlock
  | StatServerJS string
  | OpenLogFile string
  | SpawnNode string int
  | GoReaper string
  | GoWaitForReady string int
  | Sigterm pid
  | Kill pid
  | AwaitExit pid "nat option"
  | HttpGet int
  | Sleep nat

text \<open>
  \<open>AwaitExit p (Some ms)\<close> is the \<open>select\<close> of \<open>Stop\<close> on the process's exit against
  \<open>time.After\<close>; \<open>AwaitExit p None\<close> is a bare \<open>cmd.Wait()\<close>.
\<close>

record Manager =
  processes :: registry
  events :: "event list"

datatype stat_result = StatOk | StatNotExist | StatOtherError

text \<open>
  The operating system as the manager sees it: the result of \<open>os.Stat\<close> on a theme's
  \<open>server.js\<close>, whether the log file opens, the result of \<open>cmd.Start()\<close> (the new
  process, or \<open>None\<close> for an error), \<open>time.Now()\<close>, whether \<open>Process.Signal\<close>
  returns an error, and how many milliseconds after SIGTERM a process exits (\<open>None\<close>:
  it never does).
\<close>

record os_env =
  stat_server_js :: "string \<Rightarrow> stat_result"
  open_log_ok :: "string \<Rightarrow> bool"
  spawn :: "string \<Rightarrow> pid option"
  now :: nat
  signal_err :: "pid \<Rightarrow> bool"
  exit_delay :: "pid \<Rightarrow> nat option"

text \<open>
  The manager's errors are \<open>errors.New\<close> strings: "theme already running", "theme not
  installed or server.js not found", "start node process failed: ...", "theme not
  running".
\<close>

datatype error = AlreadyRunning | NotInstalled | SpawnFailed | NotRunning

definition wf_registry :: "registry \<Rightarrow> bool" where
  "wf_registry ps = distinct (map fst ps)"

definition emit :: "event list \<Rightarrow> Manager \<Rightarrow> Manager" where
  "emit evs m = m\<lparr>events := events m @ evs\<rparr>"

text \<open>\<open>rt, exists := m.processes[themeName]\<close> followed by \<open>exists && rt.cmd.Process != nil\<close>.\<close>

definition live_process :: "registry \<Rightarrow> string \<Rightarrow> pid option" where
  "live_process ps themeName =
     (case map_of ps themeName of None \<Rightarrow> None | Some rt \<Rightarrow> cmd_process rt)"

definition NewManager :: Manager where
  "NewManager = \<lparr>processes = [], events = []\<rparr>"

subsection \<open>Lookups\<close>

text \<open>
  \<open>IsRunning\<close>, \<open>GetPort\<close>, \<open>ListRunning\<close> and \<open>GetRunningTheme\<close> take the read lock,
  read the map and release the lock; they change nothing, so they are functions of the
  manager state. Their lock events are \<open>lookup_events\<close>.
\<close>

definition IsRunning :: "Manager \<Rightarrow> string \<Rightarrow> bool" where
  "IsRunning m themeName = (live_process (processes m) themeName \<noteq> None)"

definition GetPort :: "Manager \<Rightarrow> string \<Rightarrow> int" where
  "GetPort m themeName =
     (case map_of (processes m) themeName of
        None \<Rightarrow> 0
      | Some rt \<Rightarrow> if cmd_process rt \<noteq> None then port rt else 0)"

definition ListRunning :: "Manager \<Rightarrow> string list" where
  "ListRunning m = map fst (filter (\<lambda>(name, rt). cmd_process rt \<noteq> None) (processes m))"

text \<open>\<open>ThemeInfo\<close> as \<open>GetRunningTheme\<close> and the proxy fill it: name and port.\<close>

record ThemeInfo =
  ti_name :: string
  ti_port :: int

definition GetRunningTheme :: "Manager \<Rightarrow> ThemeInfo option" where
  "GetRunningTheme m =
     (case filter (\<lambda>(name, rt). cmd_process rt \<noteq> None) (processes m) of
        [] \<Rightarrow> None
      | (name, rt) # _ \<Rightarrow> Some \<lparr>ti_name = name, ti_port = port rt\<rparr>)"

definition lookup_events :: "event list" where
  "lookup_events = [RLock, RUnlock]"

subsection \<open>Start\<close>

text \<open>
  \<open>Start\<close> locks for its whole body (\<open>defer m.mu.Unlock()\<close>), so every return path
  ends with \<open>Unlock\<close>. \<open>os.IsNotExist\<close> is the only stat error that stops it; a failure
  to open the log file is ignored.
\<close>

definition Start :: "os_env \<Rightarrow> Manager \<Rightarrow> string \<Rightarrow> int \<Rightarrow> (error + unit) \<times> Manager" where
  "Start env m themeName p =
     (let m1 = emit [Lock] m in
      if live_process (processes m1) themeName \<noteq> None
      then (Inl AlreadyRunning, emit [Unlock] m1)
      else
        let m2 = emit [StatServerJS themeName] m1 in
        if stat_server_js env themeName = StatNotExist
        then (Inl NotInstalled, emit [Unlock] m2)
        else
          let m3 = emit [OpenLogFile themeName, SpawnNode themeName p] m2 in
          case spawn env themeName of
            None \<Rightarrow> (Inl SpawnFailed, emit [Unlock] m3)
          | Some pd \<Rightarrow>
              let m4 = m3\<lparr>processes :=
                         AList.update themeName
                           \<lparr>cmd_process = Some pd, port = p, startedAt = now env\<rparr>
                           (processes m3)\<rparr>
              in (Inr (), emit [GoReaper themeName, GoWaitForReady themeName p, Unlock] m4))"

text \<open>
  The goroutine \<open>Start\<close> launches to reap the process: it waits for the exit outside
  the lock, then deletes the entry of that name under the lock.
\<close>

definition reaper :: "Manager \<Rightarrow> string \<Rightarrow> pid \<Rightarrow> Manager" where
  "reaper m themeName pd =
     (let m1 = emit [AwaitExit pd None, Lock] m;
          m2 = m1\<lparr>processes := AList.delete themeName (processes m1)\<rparr>
      in emit [Unlock] m2)"

subsection \<open>Stop\<close>

text \<open>
  \<open>Stop\<close> signals SIGTERM (killing at once if the signal fails), then waits for the
  exit for at most 5 seconds and kills on timeout; it deletes the entry and returns
  nil either way. The process has exited in time when its delay is below the bound.
\<close>

definition stopTimeout :: nat where
  "stopTimeout = 5000"

definition exited_within :: "os_env \<Rightarrow> pid \<Rightarrow> nat \<Rightarrow> bool" where
  "exited_within env pd ms = (case exit_delay env pd of None \<Rightarrow> False | Some d \<Rightarrow> d < ms)"

definition Stop :: "os_env \<Rightarrow> Manager \<Rightarrow> string \<Rightarrow> (error + unit) \<times> Manager" where
  "Stop env m themeName =
     (let m1 = emit [Lock] m in
      case live_process (processes m1) themeName of
        None \<Rightarrow> (Inl NotRunning, emit [Unlock] m1)
      | Some pd \<Rightarrow>
          let m2 = emit (Sigterm pd # (if signal_err env pd then [Kill pd] else [])) m1;
              m3 = emit [AwaitExit pd (Some stopTimeout)] m2;
              m4 = (if exited_within env pd stopTimeout then m3 else emit [Kill pd] m3);
              m5 = m4\<lparr>processes := AList.delete themeName (processes m4)\<rparr>
          in (Inr (), emit [Unlock] m5))"

text \<open>The events that act on a process.\<close>

fun is_process_action :: "event \<Rightarrow> bool" where
  "is_process_action (SpawnNode _ _) = True"
| "is_process_action (Sigterm _) = True"
| "is_process_action (Kill _) = True"
| "is_process_action (AwaitExit _ _) = True"
| "is_process_action _ = False"

subsection \<open>StopAll\<close>

text \<open>
  \<open>StopAll\<close> ranges over the map under the lock: for every entry with a process it
  sends SIGTERM, ignores the signal's error, and calls \<open>cmd.Wait()\<close> with no bound and
  no kill. \<open>cmd.Wait()\<close> returns only when the process has exited, so on a process
  that never exits the call never returns: the first component of the result is then
  \<open>False\<close> and the manager is the state in which it hangs.
\<close>

fun StopAll_range :: "os_env \<Rightarrow> registry \<Rightarrow> Manager \<Rightarrow> bool \<times> Manager" where
  "StopAll_range env [] m = (True, m)"
| "StopAll_range env ((name, rt) # rest) m =
     (case cmd_process rt of
        None \<Rightarrow> StopAll_range env rest m
      | Some pd \<Rightarrow>
          (let m1 = emit [Sigterm pd, AwaitExit pd None] m in
           (case exit_delay env pd of
              None \<Rightarrow> (False, m1)
            | Some d \<Rightarrow> StopAll_range env rest m1)))"

text \<open>The result is \<open>None\<close> when \<open>StopAll\<close> never returns, and \<open>Some nil\<close> otherwise.\<close>

definition StopAll :: "os_env \<Rightarrow> Manager \<Rightarrow> (error + unit) option \<times> Manager" where
  "StopAll env m =
     (let m1 = emit [Lock] m in
      case StopAll_range env (processes m1) m1 of
        (False, m2) \<Rightarrow> (None, m2)
      | (True, m2) \<Rightarrow> (Some (Inr ()), emit [Unlock] (m2\<lparr>processes := []\<rparr>)))"

subsection \<open>The readiness prober\<close>

text \<open>
  \<open>waitForReady\<close> runs in its own goroutine, so the registry it reads and the replies
  it gets are the environment's: \<open>registry_at k\<close> is the map as the \<open>k\<close>-th check
  finds it, \<open>reply_at k\<close> what the runtime does with the \<open>k\<close>-th request. Time is in
  milliseconds since \<open>startTime\<close>; the map read takes none, \<open>time.Sleep\<close> takes the
  interval, and \<open>client.Get\<close> takes what the reply takes, cut at the client's timeout.
\<close>

datatype probe_reply = Responds nat | Fails nat | Hangs

record probe_env =
  registry_at :: "nat \<Rightarrow> registry"
  reply_at :: "nat \<Rightarrow> probe_reply"

datatype ready_outcome = Ready | Aborted | TimedOut

definition maxTimeout :: nat where
  "maxTimeout = 30000"

definition checkInterval :: nat where
  "checkInterval = 1000"

definition httpTimeout :: nat where
  "httpTimeout = 2000"

text \<open>\<open>client.Get\<close> under \<open>Timeout: httpTimeout\<close>: whether \<open>err == nil\<close>, and the time taken.\<close>

fun client_Get :: "probe_reply \<Rightarrow> bool \<times> nat" where
  "client_Get (Responds d) = (if d < httpTimeout then (True, d) else (False, httpTimeout))"
| "client_Get (Fails d) = (False, min d httpTimeout)"
| "client_Get Hangs = (False, httpTimeout)"

text \<open>
  The loop, with the number of the iteration, the elapsed time at its head and the
  events so far. It returns how it ended, the time at which it returned and the events.
\<close>

function waitForReady_loop ::
  "probe_env \<Rightarrow> string \<Rightarrow> int \<Rightarrow> nat \<Rightarrow> nat \<Rightarrow> event list \<Rightarrow> ready_outcome \<times> nat \<times> event list" where
  "waitForReady_loop pe themeName p k elapsed evs =
     (if elapsed \<ge> maxTimeout then (TimedOut, elapsed, evs)
      else if live_process (registry_at pe k) themeName = None
      then (Aborted, elapsed, evs @ [RLock, RUnlock])
      else if fst (client_Get (reply_at pe k))
      then (Ready, elapsed + snd (client_Get (reply_at pe k)), evs @ [RLock, RUnlock, HttpGet p])
      else waitForReady_loop pe themeName p (Suc k)
             (elapsed + snd (client_Get (reply_at pe k)) + checkInterval)
             (evs @ [RLock, RUnlock, HttpGet p, Sleep checkInterval]))"
  by pat_completeness auto
termination
  by (relation "measure (\<lambda>(pe, themeName, p, k, elapsed, evs). maxTimeout - elapsed)")
     (auto simp add: maxTimeout_def checkInterval_def)

declare waitForReady_loop.simps [simp del]

definition waitForReady :: "probe_env \<Rightarrow> string \<Rightarrow> int \<Rightarrow> ready_outcome \<times> nat \<times> event list" where
  "waitForReady pe themeName p = waitForReady_loop pe themeName p 0 0 []"

subsection \<open>The lock discipline\<close>

text \<open>
  The blocking external calls: spawning a process, waiting for a process to exit, an
  HTTP request. \<open>lock_discipline held evs\<close> says that no such call in \<open>evs\<close> is made
  while the mutex is held, \<open>held\<close> telling whether it is held at the start.
\<close>

fun blocking :: "event \<Rightarrow> bool" where
  "blocking (SpawnNode _ _) = True"
| "blocking (AwaitExit _ _) = True"
| "blocking (HttpGet _) = True"
| "blocking _ = False"

fun lock_discipline :: "bool \<Rightarrow> event list \<Rightarrow> bool" where
  "lock_discipline held [] = True"
| "lock_discipline held (Lock # es) = lock_discipline True es"
| "lock_discipline held (RLock # es) = lock_discipline True es"
| "lock_discipline held (Unlock # es) = lock_discipline False es"
| "lock_discipline held (RUnlock # es) = lock_discipline False es"
| "lock_discipline held (e # es) = (\<not> (held \<and> blocking e) \<and> lock_discipline held es)"

text \<open>Whether the mutex is held after the events.\<close>

fun held_after :: "bool \<Rightarrow> event list \<Rightarrow> bool" where
  "held_after held [] = held"
| "held_after held (Lock # es) = held_after True es"
| "held_after held (RLock # es) = held_after True es"
| "held_after held (Unlock # es) = held_after False es"
| "held_after held (RUnlock # es) = held_after False es"
| "held_after held (e # es) = held_after held es"

text \<open>The events an operation added to the log.\<close>

definition op_events :: "Manager \<Rightarrow> Manager \<Rightarrow> event list" where
  "op_events m m' = drop (length (events m)) (events m')"

section \<open>The theme service (package theme)\<close>

text \<open>
  The service reads and writes the table of installed themes, one row per user and
  theme with its \<open>is_current\<close> flag, and drives the manager. Every database call can
  fail; which ones do is the parameter \<open>svc_env\<close>. A transaction works on a copy of the
  table that replaces the table at a successful commit and is dropped otherwise. The
  service's calls are logged in order.
\<close>

record theme_row =
  row_id :: nat
  row_user :: nat
  row_theme :: string
  is_current :: bool

type_synonym theme_table = "theme_row list"

datatype svc_event =
    DbQueryTheme nat string
  | DbClearCurrent nat
  | TxBegin
  | TxClearCurrent nat
  | TxSetCurrent nat
  | TxRollback
  | TxCommit
  | CallStop string
  | CallStart string int
  | BackupStatic
  | RemoveStatic
  | DbCountCurrent nat
  | RemoveBackup

record service =
  db :: theme_table
  svc_log :: "svc_event list"

record svc_env =
  query_fails :: bool
  begin_fails :: bool
  clear_fails :: bool
  set_current_fails :: bool
  commit_fails :: bool
  update_fails :: bool
  static_mode_active :: bool

datatype switch_error =
    ThemeNotInstalled
  | QueryFailed
  | TxBeginFailed
  | ClearCurrentFailed
  | SetCurrentFailed
  | StartFailed error
  | CommitFailed
  | UpdateStatusFailed

definition svc_note :: "svc_event list \<Rightarrow> service \<Rightarrow> service" where
  "svc_note evs s = s\<lparr>svc_log := svc_log s @ evs\<rparr>"

text \<open>The calls to the manager among the logged calls.\<close>

fun is_CallStop :: "svc_event \<Rightarrow> bool" where
  "is_CallStop (CallStop _) = True"
| "is_CallStop _ = False"

fun is_CallStart :: "svc_event \<Rightarrow> bool" where
  "is_CallStart (CallStart _ _) = True"
| "is_CallStart _ = False"

text \<open>\<open>Query().Where(UserID(userID), ThemeName(themeName)).First(ctx)\<close>\<close>

definition find_theme :: "theme_table \<Rightarrow> nat \<Rightarrow> string \<Rightarrow> theme_row option" where
  "find_theme tbl userID themeName =
     find (\<lambda>r. row_user r = userID \<and> row_theme r = themeName) tbl"

text \<open>\<open>Update().Where(UserID(userID)).SetIsCurrent(false)\<close>\<close>

definition clear_current :: "nat \<Rightarrow> theme_table \<Rightarrow> theme_table" where
  "clear_current userID tbl =
     map (\<lambda>r. if row_user r = userID then r\<lparr>is_current := False\<rparr> else r) tbl"

text \<open>\<open>UpdateOneID(theme.ID).SetIsCurrent(true)\<close>\<close>

definition set_current :: "nat \<Rightarrow> theme_table \<Rightarrow> theme_table" where
  "set_current tid tbl =
     map (\<lambda>r. if row_id r = tid then r\<lparr>is_current := True\<rparr> else r) tbl"

subsection \<open>SwitchToSSRTheme\<close>

text \<open>Step 2: stop every running theme but the target; a failed stop is only logged.\<close>

fun stop_others :: "os_env \<Rightarrow> string \<Rightarrow> string list \<Rightarrow> service \<times> Manager \<Rightarrow> service \<times> Manager" where
  "stop_others env themeName [] sm = sm"
| "stop_others env themeName (name # names) (s, m) =
     (if name \<noteq> themeName
      then stop_others env themeName names (svc_note [CallStop name] s, snd (Stop env m name))
      else stop_others env themeName names (s, m))"

text \<open>Step 4: start the target on port 3000 unless it is running.\<close>

definition start_target ::
  "os_env \<Rightarrow> string \<Rightarrow> service \<times> Manager option \<Rightarrow> (error + unit) \<times> service \<times> Manager option" where
  "start_target env themeName sm =
     (case sm of
        (s, None) \<Rightarrow> (Inr (), s, None)
      | (s, Some m) \<Rightarrow>
          if \<not> IsRunning m themeName
          then (case Start env m themeName 3000 of
                  (r, m') \<Rightarrow> (r, svc_note [CallStart themeName 3000] s, Some m'))
          else (Inr (), s, Some m))"

text \<open>
  The whole operation. The debug log it writes on the way is left out. The manager is
  an interface value that may be nil: \<open>None\<close>.
\<close>

definition SwitchToSSRTheme ::
  "svc_env \<Rightarrow> os_env \<Rightarrow> service \<Rightarrow> Manager option \<Rightarrow> nat \<Rightarrow> string
     \<Rightarrow> (switch_error + unit) \<times> service \<times> Manager option" where
  "SwitchToSSRTheme sv env s ssrManager userID themeName =
     (let s0 = svc_note [DbQueryTheme userID themeName] s in
      if query_fails sv then (Inl QueryFailed, s0, ssrManager)
      else
        (case find_theme (db s0) userID themeName of
           None \<Rightarrow> (Inl ThemeNotInstalled, s0, ssrManager)
         | Some theme \<Rightarrow>
             (let (s1, mgr1) =
                    (case ssrManager of
                       None \<Rightarrow> (s0, None)
                     | Some m \<Rightarrow>
                         (case stop_others env themeName (ListRunning m) (s0, m) of
                            (s', m') \<Rightarrow> (s', Some m')));
                  s2 = svc_note [TxBegin] s1
              in
              if begin_fails sv then (Inl TxBeginFailed, s2, mgr1)
              else
                (let s3 = svc_note [TxClearCurrent userID] s2 in
                 if clear_fails sv then (Inl ClearCurrentFailed, svc_note [TxRollback] s3, mgr1)
                 else
                   (let tx1 = clear_current userID (db s3);
                        s4 = svc_note [TxSetCurrent (row_id theme)] s3
                    in
                    if set_current_fails sv
                    then (Inl SetCurrentFailed, svc_note [TxRollback] s4, mgr1)
                    else
                      (let tx2 = set_current (row_id theme) tx1 in
                       (case start_target env themeName (s4, mgr1) of
                          (Inl e, s5, mgr2) \<Rightarrow>
                            (Inl (StartFailed e), svc_note [TxRollback] s5, mgr2)
                        | (Inr u, s5, mgr2) \<Rightarrow>
                            (let s6 = svc_note [TxCommit] s5 in
                             if commit_fails sv
                             then (case mgr2 of
                                     None \<Rightarrow> (Inl CommitFailed, s6, None)
                                   | Some m \<Rightarrow>
                                       (Inl CommitFailed, svc_note [CallStop themeName] s6,
                                        Some (snd (Stop env m themeName))))
                             else (Inr (), s6\<lparr>db := tx2\<rparr>, mgr2)))))))))"

subsection \<open>SwitchToOfficial\<close>



section \<open>The proxy middleware (package router)\<close>

text \<open>
  The middleware either hands the request to the next handler (\<open>c.Next()\<close>) or serves
  it through a reverse proxy to \<open>http://localhost:<port>\<close>. The global
  \<open>ssrThemeChecker\<close> is a callback that may be nil; what it returns for this request
  is \<open>Some (themeName, shouldProxy)\<close>.
\<close>

datatype proxy_decision = Next | Proxy string int

definition exactPaths :: "string list" where
  "exactPaths = [''/robots.txt'', ''/sitemap.xml'', ''/rss.xml'', ''/feed.xml'', ''/atom.xml'']"

definition skipPrefixes :: "string list" where
  "skipPrefixes = [''/api/'', ''/admin'', ''/login'', ''/admin-static/'', ''/admin-assets/'',
                   ''/f/'', ''/needcache/'']"

definition shouldSkipSSRProxy :: "string \<Rightarrow> bool" where
  "shouldSkipSSRProxy path =
     (list_ex (\<lambda>exact. path = exact) exactPaths \<or>
      list_ex (\<lambda>pre. prefix pre path) skipPrefixes)"

text \<open>
  \<open>url.Parse\<close> of \<open>http://localhost:%d\<close> accepts a port made of digits only, which
  \<open>%d\<close> prints for every port that is not negative.
\<close>

definition url_Parse_ok :: "int \<Rightarrow> bool" where
  "url_Parse_ok p = (0 \<le> p)"

definition serve_proxy :: "ThemeInfo option \<Rightarrow> proxy_decision" where
  "serve_proxy runningTheme =
     (case runningTheme of
        None \<Rightarrow> Next
      | Some t \<Rightarrow> if url_Parse_ok (ti_port t) then Proxy (ti_name t) (ti_port t) else Next)"

definition SSRProxyMiddleware ::
  "Manager option \<Rightarrow> (string \<times> bool) option \<Rightarrow> string \<Rightarrow> proxy_decision" where
  "SSRProxyMiddleware ssrManager ssrThemeChecker path =
     (case ssrManager of
        None \<Rightarrow> Next
      | Some m \<Rightarrow>
          if shouldSkipSSRProxy path then Next
          else
            (case ssrThemeChecker of
               Some (themeName, shouldProxy) \<Rightarrow>
                 if \<not> shouldProxy then Next
                 else serve_proxy
                        (if IsRunning m themeName
                         then Some \<lparr>ti_name = themeName, ti_port = GetPort m themeName\<rparr>
                         else None)
             | None \<Rightarrow> serve_proxy (GetRunningTheme m)))"

section \<open>Concrete states\<close>

text \<open>
  A world in which \<open>server.js\<close> exists and the spawn gives process 7, which exits 100
  ms after SIGTERM; one in which the spawn fails; one whose process 7 never exits; and
  a manager that runs theme \<open>nova\<close> as process 7 on port 3000.
\<close>

definition env_ok :: os_env where
  "env_ok = \<lparr>stat_server_js = (\<lambda>_. StatOk), open_log_ok = (\<lambda>_. True),
             spawn = (\<lambda>_. Some 7), now = 0, signal_err = (\<lambda>_. False),
             exit_delay = (\<lambda>_. Some 100)\<rparr>"


definition env_hang :: os_env where
  "env_hang = env_ok\<lparr>exit_delay := (\<lambda>_. None)\<rparr>"

definition mgr_nova :: Manager where
  "mgr_nova = \<lparr>processes = [(''nova'', \<lparr>cmd_process = Some 7, port = 3000, startedAt = 0\<rparr>)],
               events = []\<rparr>"

text \<open>
  Three runtimes as the prober meets them, the theme staying in the registry in the
  first two. \<open>pe_slow\<close> never answers: the first request is refused after 500 ms, the
  next ones at once, and request 29 hangs until the client gives up. \<open>pe_up\<close> answers
  the first request after 10 ms. In \<open>pe_gone\<close> the entry has left the registry.
\<close>

definition pe_slow :: probe_env where
  "pe_slow = \<lparr>registry_at = (\<lambda>_. processes mgr_nova),
              reply_at = (\<lambda>k. if k = 0 then Fails 500 else if k = 29 then Hangs else Fails 0)\<rparr>"



text \<open>
  A service whose user 1 has installed \<open>nova\<close> and \<open>aura\<close>, \<open>aura\<close> being current;
  a database on which every call succeeds, one on which the commit fails, one on which
  the update of \<open>SwitchToOfficial\<close> fails.
\<close>

definition row_nova :: theme_row where
  "row_nova = \<lparr>row_id = 1, row_user = 1, row_theme = ''nova'', is_current = False\<rparr>"

definition row_aura :: theme_row where
  "row_aura = \<lparr>row_id = 2, row_user = 1, row_theme = ''aura'', is_current = True\<rparr>"

definition svc0 :: service where
  "svc0 = \<lparr>db = [row_nova, row_aura], svc_log = []\<rparr>"

definition sv_ok :: svc_env where
  "sv_ok = \<lparr>query_fails = False, begin_fails = False, clear_fails = False,
            set_current_fails = False, commit_fails = False, update_fails = False,
            static_mode_active = False\<rparr>"

definition sv_commit_fails :: svc_env where
  "sv_commit_fails = sv_ok\<lparr>commit_fails := True\<rparr>"


section \<open>Properties of the manager\<close>

lemma processes_emit [simp]: "processes (emit evs m) = processes m"
  by (simp add: emit_def)

lemma events_emit [simp]: "events (emit evs m) = events m @ evs"
  by (simp add: emit_def)

lemma live_process_delete [simp]: "live_process (AList.delete n ps) n = None"
  by (simp add: live_process_def delete_conv')

lemma live_process_update_same [simp]:
  "live_process (AList.update n rt ps) n = cmd_process rt"
  by (simp add: live_process_def update_conv')

lemma live_process_update_other [simp]:
  "n' \<noteq> n \<Longrightarrow> live_process (AList.update n rt ps) n' = live_process ps n'"
  by (simp add: live_process_def update_conv')

lemma live_process_delete_other [simp]:
  "n' \<noteq> n \<Longrightarrow> live_process (AList.delete n ps) n' = live_process ps n'"
  by (simp add: live_process_def delete_conv')


lemma wf_registry_delete: "wf_registry ps \<Longrightarrow> wf_registry (AList.delete n ps)"
  by (simp add: wf_registry_def distinct_delete)


lemma Stop_wf: "wf_registry (processes m) \<Longrightarrow> wf_registry (processes (snd (Stop env m n)))"
  by (simp add: Stop_def Let_def wf_registry_delete split: option.splits)

lemma Stop_not_running_after: "\<not> IsRunning (snd (Stop env m n)) n"
  by (simp add: Stop_def IsRunning_def Let_def split: option.splits)


lemma GetPort_not_running: "\<not> IsRunning m n \<Longrightarrow> GetPort m n = 0"
  by (simp add: IsRunning_def GetPort_def live_process_def split: option.splits)

lemma Stop_result: "fst (Stop env m n) = (if IsRunning m n then Inr () else Inl NotRunning)"
  by (auto simp add: Stop_def IsRunning_def Let_def split: option.splits)



text \<open>
  C5. \<open>Stop\<close> of a name with no live entry returns \<open>NotRunning\<close>, leaves the registry
  as it was and does nothing but take and release the lock. \<open>Stop\<close> of a live name
  returns nil, whether the process exited in time or was killed. After \<open>Stop\<close>,
  \<open>IsRunning\<close> is false and \<open>GetPort\<close> is 0.
\<close>

theorem Stop_spec:
  "(\<not> IsRunning m n \<longrightarrow>
      fst (Stop env m n) = Inl NotRunning \<and>
      processes (snd (Stop env m n)) = processes m \<and>
      events (snd (Stop env m n)) = events m @ [Lock, Unlock]) \<and>
   (IsRunning m n \<longrightarrow> fst (Stop env m n) = Inr ()) \<and>
   \<not> IsRunning (snd (Stop env m n)) n \<and>
   GetPort (snd (Stop env m n)) n = 0"
proof -
  have a: "\<not> IsRunning m n \<longrightarrow>
      fst (Stop env m n) = Inl NotRunning \<and>
      processes (snd (Stop env m n)) = processes m \<and>
      events (snd (Stop env m n)) = events m @ [Lock, Unlock]"
    by (simp add: Stop_def IsRunning_def Let_def)
  have b: "IsRunning m n \<longrightarrow> fst (Stop env m n) = Inr ()"
    by (simp add: Stop_result)
  have c: "\<not> IsRunning (snd (Stop env m n)) n"
    by (rule Stop_not_running_after)
  have d: "GetPort (snd (Stop env m n)) n = 0"
    by (rule GetPort_not_running [OF c])
  from a b c d show ?thesis by blast
qed

theorem Stop_spec_witness:
  "IsRunning mgr_nova ''nova'' \<and>
   \<not> IsRunning mgr_nova ''aura'' \<and>
   fst (Stop env_ok mgr_nova ''nova'') = Inr () \<and>
   fst (Stop env_hang mgr_nova ''nova'') = Inr () \<and>
   fst (Stop env_ok mgr_nova ''aura'') = Inl NotRunning \<and>
   events (snd (Stop env_ok mgr_nova ''aura'')) = events mgr_nova @ [Lock, Unlock] \<and>
   \<not> IsRunning (snd (Stop env_hang mgr_nova ''nova'')) ''nova'' \<and>
   GetPort (snd (Stop env_hang mgr_nova ''nova'')) ''nova'' = 0"
proof -
  have h1: "IsRunning mgr_nova ''nova''"
    by (simp add: IsRunning_def live_process_def mgr_nova_def)
  have h2: "\<not> IsRunning mgr_nova ''aura''"
    by (simp add: IsRunning_def live_process_def mgr_nova_def)
  from Stop_spec [of mgr_nova "''nova''" env_ok] Stop_spec [of mgr_nova "''nova''" env_hang]
    Stop_spec [of mgr_nova "''aura''" env_ok] h1 h2
  show ?thesis by blast
qed

section \<open>Properties of StopAll\<close>

lemma StopAll_returns_empty:
  "fst (StopAll env m) = Some r \<Longrightarrow> r = Inr () \<and> ListRunning (snd (StopAll env m)) = []"
  by (auto simp add: StopAll_def Let_def ListRunning_def split: prod.splits bool.splits if_splits)

text \<open>
  C6. \<open>StopAll\<close> does not stop a process the way \<open>Stop\<close> does. On the manager that
  runs \<open>nova\<close> as a process that never exits after SIGTERM, \<open>Stop\<close> waits 5 seconds,
  kills, unlocks and returns nil with the registry entry gone; \<open>StopAll\<close> sends SIGTERM
  and waits without bound: it never returns, sends no kill, keeps the lock and leaves
  the entry in the registry.
\<close>

theorem StopAll_hangs:
  "StopAll env_hang mgr_nova =
     (None, \<lparr>processes = processes mgr_nova, events = [Lock, Sigterm 7, AwaitExit 7 None]\<rparr>) \<and>
   ListRunning (snd (StopAll env_hang mgr_nova)) = [''nova''] \<and>
   Stop env_hang mgr_nova ''nova'' =
     (Inr (), \<lparr>processes = [],
               events = [Lock, Sigterm 7, AwaitExit 7 (Some 5000), Kill 7, Unlock]\<rparr>)"
  by (simp add: StopAll_def Stop_def Let_def mgr_nova_def env_hang_def env_ok_def emit_def
      ListRunning_def live_process_def exited_within_def stopTimeout_def AList.delete_eq)

section \<open>Properties of the readiness prober\<close>







section \<open>Properties of the locking\<close>

lemma lock_discipline_append:
  "lock_discipline held (xs @ ys) =
     (lock_discipline held xs \<and> lock_discipline (held_after held xs) ys)"
proof (induction xs arbitrary: held)
  case Nil
  show ?case by simp
next
  case (Cons e es)
  then show ?case by (cases e) auto
qed

lemma held_after_append: "held_after held (xs @ ys) = held_after (held_after held xs) ys"
proof (induction xs arbitrary: held)
  case Nil
  show ?case by simp
next
  case (Cons e es)
  then show ?case by (cases e) auto
qed

lemma waitForReady_loop_discipline:
  "lock_discipline False evs \<Longrightarrow> \<not> held_after False evs \<Longrightarrow>
   lock_discipline False (snd (snd (waitForReady_loop pe n p k elapsed evs)))"
proof (induction pe n p k elapsed evs rule: waitForReady_loop.induct)
  case (1 pe themeName p k elapsed evs)
  have step: "lock_discipline False (evs @ [RLock, RUnlock, HttpGet p, Sleep checkInterval])"
    "\<not> held_after False (evs @ [RLock, RUnlock, HttpGet p, Sleep checkInterval])"
    using "1.prems" by (simp_all add: lock_discipline_append held_after_append)
  show ?case
  proof (cases "elapsed \<ge> maxTimeout \<or> live_process (registry_at pe k) themeName = None \<or>
                  fst (client_Get (reply_at pe k))")
    case True
    with "1.prems" show ?thesis
      by (subst waitForReady_loop.simps) (auto simp add: lock_discipline_append)
  next
    case False
    then have a: "\<not> maxTimeout \<le> elapsed"
      and b: "live_process (registry_at pe k) themeName \<noteq> None"
      and c: "\<not> fst (client_Get (reply_at pe k))"
      by auto
    have "lock_discipline False (snd (snd (waitForReady_loop pe themeName p (Suc k)
            (elapsed + snd (client_Get (reply_at pe k)) + checkInterval)
            (evs @ [RLock, RUnlock, HttpGet p, Sleep checkInterval]))))"
      by (rule "1.IH" [OF a b c step])
    then show ?thesis
      by (subst waitForReady_loop.simps) (simp add: a b c)
  qed
qed

lemma StopAll_range_events:
  "\<exists>evs. events (snd (StopAll_range env ps m)) = events m @ evs \<and>
     (filter (\<lambda>(name, rt). cmd_process rt \<noteq> None) ps \<noteq> [] \<longrightarrow>
        (\<exists>pd tl. evs = Sigterm pd # AwaitExit pd None # tl))"
proof (induction ps arbitrary: m)
  case Nil
  show ?case by simp
next
  case (Cons a ps)
  obtain name rt where a: "a = (name, rt)" by (cases a)
  show ?case
  proof (cases "cmd_process rt")
    case None
    with Cons [of m] a show ?thesis by simp
  next
    case (Some pd)
    show ?thesis
    proof (cases "exit_delay env pd")
      case None
      with Some a show ?thesis by (simp add: Let_def)
    next
      case (Some d)
      from Cons [of "emit [Sigterm pd, AwaitExit pd None] m"] obtain evs where
        "events (snd (StopAll_range env ps (emit [Sigterm pd, AwaitExit pd None] m))) =
           events m @ Sigterm pd # AwaitExit pd None # evs"
        by auto
      with Some \<open>cmd_process rt = Some pd\<close> a show ?thesis by (simp add: Let_def)
    qed
  qed
qed

lemma StopAll_holds_lock:
  assumes "ListRunning m \<noteq> []"
  shows "\<not> lock_discipline False (op_events m (snd (StopAll env m)))"
proof -
  from assms have live: "filter (\<lambda>(name, rt). cmd_process rt \<noteq> None) (processes m) \<noteq> []"
    by (simp add: ListRunning_def)
  from StopAll_range_events [of env "processes m" "emit [Lock] m"] live
  obtain pd tl where
    e: "events (snd (StopAll_range env (processes m) (emit [Lock] m))) =
          events m @ Lock # Sigterm pd # AwaitExit pd None # tl"
    by auto
  obtain b m2 where r: "StopAll_range env (processes m) (emit [Lock] m) = (b, m2)"
    by (cases "StopAll_range env (processes m) (emit [Lock] m)")
  with e have "events m2 = events m @ Lock # Sigterm pd # AwaitExit pd None # tl"
    by simp
  with r show ?thesis
    by (cases b) (simp_all add: StopAll_def Let_def op_events_def)
qed

text \<open>
  C9, as the claim states it: no operation holds the lock across a blocking external
  call. \<open>Start\<close> does: it locks first, unlocks on return, and spawns the process in
  between.
\<close>

theorem Start_holds_lock_counterexample:
  "op_events NewManager (snd (Start env_ok NewManager ''nova'' 3000)) =
     [Lock, StatServerJS ''nova'', OpenLogFile ''nova'', SpawnNode ''nova'' 3000,
      GoReaper ''nova'', GoWaitForReady ''nova'' 3000, Unlock] \<and>
   \<not> lock_discipline False (op_events NewManager (snd (Start env_ok NewManager ''nova'' 3000)))"
  by (simp add: Start_def Let_def NewManager_def env_ok_def live_process_def op_events_def emit_def)

text \<open>
  C9, amended. The lookups, the reaper and the readiness prober hold the lock around
  the map access only: the reaper waits for the exit before it locks, the prober
  unlocks before its request. \<open>Start\<close>, \<open>Stop\<close> and \<open>StopAll\<close> hold the write lock for
  their whole body: \<open>Start\<close> across the spawn whenever it gets that far, \<open>Stop\<close> across
  the wait for the exit whenever the theme is live, \<open>StopAll\<close> across its waits whenever
  a theme is live.
\<close>

theorem lock_held_by_mutators_only:
  "lock_discipline False lookup_events \<and>
   lock_discipline False (op_events m (reaper m n pd)) \<and>
   lock_discipline False (snd (snd (waitForReady pe n p))) \<and>
   (live_process (processes m) n = None \<longrightarrow> stat_server_js env n \<noteq> StatNotExist \<longrightarrow>
      \<not> lock_discipline False (op_events m (snd (Start env m n p)))) \<and>
   (IsRunning m n \<longrightarrow> \<not> lock_discipline False (op_events m (snd (Stop env m n)))) \<and>
   (ListRunning m \<noteq> [] \<longrightarrow> \<not> lock_discipline False (op_events m (snd (StopAll env m))))"
proof -
  have a: "lock_discipline False lookup_events"
    by (simp add: lookup_events_def)
  have b: "lock_discipline False (op_events m (reaper m n pd))"
    by (simp add: reaper_def Let_def op_events_def emit_def)
  have c: "lock_discipline False (snd (snd (waitForReady pe n p)))"
    by (simp add: waitForReady_def waitForReady_loop_discipline)
  have d: "live_process (processes m) n = None \<longrightarrow> stat_server_js env n \<noteq> StatNotExist \<longrightarrow>
      \<not> lock_discipline False (op_events m (snd (Start env m n p)))"
    by (simp add: Start_def Let_def op_events_def emit_def split: option.splits)
  have e: "IsRunning m n \<longrightarrow> \<not> lock_discipline False (op_events m (snd (Stop env m n)))"
    by (auto simp add: Stop_def Let_def op_events_def emit_def IsRunning_def split: option.splits)
  have f: "ListRunning m \<noteq> [] \<longrightarrow> \<not> lock_discipline False (op_events m (snd (StopAll env m)))"
    by (simp add: StopAll_holds_lock)
  from a b c d e f show ?thesis by blast
qed

theorem lock_held_by_mutators_only_witness:
  "live_process (processes NewManager) ''nova'' = None \<and>
   stat_server_js env_ok ''nova'' \<noteq> StatNotExist \<and>
   IsRunning mgr_nova ''nova'' \<and>
   ListRunning mgr_nova \<noteq> [] \<and>
   lock_discipline False (op_events mgr_nova (reaper mgr_nova ''nova'' 7)) \<and>
   lock_discipline False (snd (snd (waitForReady pe_slow ''nova'' 3000))) \<and>
   \<not> lock_discipline False (op_events NewManager (snd (Start env_ok NewManager ''nova'' 3000))) \<and>
   \<not> lock_discipline False (op_events mgr_nova (snd (Stop env_ok mgr_nova ''nova''))) \<and>
   \<not> lock_discipline False (op_events mgr_nova (snd (StopAll env_ok mgr_nova)))"
proof -
  have h1: "live_process (processes NewManager) ''nova'' = None"
    by (simp add: NewManager_def live_process_def)
  have h2: "stat_server_js env_ok ''nova'' \<noteq> StatNotExist"
    by (simp add: env_ok_def)
  have h3: "IsRunning mgr_nova ''nova''"
    by (simp add: IsRunning_def live_process_def mgr_nova_def)
  have h4: "ListRunning mgr_nova \<noteq> []"
    by (simp add: ListRunning_def mgr_nova_def)
  from lock_held_by_mutators_only [of NewManager "''nova''" 7 pe_slow 3000 env_ok]
    lock_held_by_mutators_only [of mgr_nova "''nova''" 7 pe_slow 3000 env_ok]
    h1 h2 h3 h4
  show ?thesis by blast
qed

section \<open>Properties of the proxy middleware\<close>

lemma GetRunningTheme_live:
  assumes "wf_registry (processes m)" and "GetRunningTheme m = Some t"
  shows "IsRunning m (ti_name t) \<and> ti_port t = GetPort m (ti_name t)"
proof -
  from assms(2) obtain n rt rest where
    f: "filter (\<lambda>(name, rt). cmd_process rt \<noteq> None) (processes m) = (n, rt) # rest" and
    t: "t = \<lparr>ti_name = n, ti_port = port rt\<rparr>"
    by (auto simp add: GetRunningTheme_def split: list.splits)
  have "(n, rt) \<in> set ((n, rt) # rest)"
    by simp
  then have "(n, rt) \<in> set (filter (\<lambda>(name, rt). cmd_process rt \<noteq> None) (processes m))"
    by (simp only: f)
  then have mem: "(n, rt) \<in> set (processes m)" and live: "cmd_process rt \<noteq> None"
    by auto
  from assms(1) mem have "map_of (processes m) n = Some rt"
    by (simp add: wf_registry_def)
  with live t show ?thesis
    by (simp add: IsRunning_def GetPort_def live_process_def)
qed

lemma proxy_cases:
  assumes "SSRProxyMiddleware mgr chk path = Proxy n p"
  shows "\<not> shouldSkipSSRProxy path \<and> (\<exists>m. mgr = Some m \<and>
      (chk = Some (n, True) \<and> IsRunning m n \<and> p = GetPort m n \<or>
       chk = None \<and> GetRunningTheme m = Some \<lparr>ti_name = n, ti_port = p\<rparr>))"
  using assms
  by (auto simp add: SSRProxyMiddleware_def serve_proxy_def
      split: option.splits if_splits prod.splits)

text \<open>
  C1, as the claim states it: a request is forwarded only when the persisted flag names
  the theme as current and the registry reports it live. With no checker installed the
  middleware does not consult the flag at all: it forwards to the theme the registry
  reports as running.
\<close>

theorem proxy_without_checker_counterexample:
  "\<not> shouldSkipSSRProxy ''/'' \<and>
   SSRProxyMiddleware (Some mgr_nova) None ''/'' = Proxy ''nova'' 3000"
  by (simp add: SSRProxyMiddleware_def shouldSkipSSRProxy_def exactPaths_def skipPrefixes_def
      GetRunningTheme_def mgr_nova_def serve_proxy_def url_Parse_ok_def)

text \<open>
  C1, amended. Without a manager nothing is forwarded. With one, a request that is
  forwarded to a theme is outside the exclusion set, the registry reports that theme as
  live and the target port is the port of its registry entry; and if a checker is
  installed, the checker has named that theme as current. So no request is forwarded to
  a theme whose registry entry is absent, whatever the persisted flag says.
\<close>

theorem proxy_only_when_live:
  "SSRProxyMiddleware None chk path = Next \<and>
   (wf_registry (processes m) \<longrightarrow> SSRProxyMiddleware (Some m) chk path = Proxy n p \<longrightarrow>
      \<not> shouldSkipSSRProxy path \<and> IsRunning m n \<and> p = GetPort m n \<and>
      (chk = None \<or> chk = Some (n, True)))"
proof -
  have a: "SSRProxyMiddleware None chk path = Next"
    by (simp add: SSRProxyMiddleware_def)
  have b: "\<not> shouldSkipSSRProxy path \<and> IsRunning m n \<and> p = GetPort m n \<and>
      (chk = None \<or> chk = Some (n, True))"
    if wf: "wf_registry (processes m)" and fw: "SSRProxyMiddleware (Some m) chk path = Proxy n p"
  proof -
    from proxy_cases [OF fw] have ns: "\<not> shouldSkipSSRProxy path"
      and cs: "chk = Some (n, True) \<and> IsRunning m n \<and> p = GetPort m n \<or>
               chk = None \<and> GetRunningTheme m = Some \<lparr>ti_name = n, ti_port = p\<rparr>"
      by auto
    from cs show ?thesis
    proof
      assume "chk = Some (n, True) \<and> IsRunning m n \<and> p = GetPort m n"
      with ns show ?thesis by simp
    next
      assume g: "chk = None \<and> GetRunningTheme m = Some \<lparr>ti_name = n, ti_port = p\<rparr>"
      with GetRunningTheme_live [OF wf, of "\<lparr>ti_name = n, ti_port = p\<rparr>"] ns
      show ?thesis by simp
    qed
  qed
  from a b show ?thesis by blast
qed

theorem proxy_only_when_live_witness:
  "wf_registry (processes mgr_nova) \<and>
   SSRProxyMiddleware (Some mgr_nova) (Some (''nova'', True)) ''/posts/1'' = Proxy ''nova'' 3000 \<and>
   \<not> shouldSkipSSRProxy ''/posts/1'' \<and>
   IsRunning mgr_nova ''nova'' \<and>
   GetPort mgr_nova ''nova'' = 3000"
proof -
  have h1: "wf_registry (processes mgr_nova)"
    by (simp add: wf_registry_def mgr_nova_def)
  have h2: "SSRProxyMiddleware (Some mgr_nova) (Some (''nova'', True)) ''/posts/1'' = Proxy ''nova'' 3000"
    by (simp add: SSRProxyMiddleware_def shouldSkipSSRProxy_def exactPaths_def skipPrefixes_def
        IsRunning_def GetPort_def live_process_def mgr_nova_def serve_proxy_def url_Parse_ok_def)
  from proxy_only_when_live [of "Some (''nova'', True)" "''/posts/1''" mgr_nova "''nova''" 3000] h1 h2
  show ?thesis by simp
qed

text \<open>
  C8. The exclusion set is the five well-known files and every path under the seven
  prefixes; a request whose path is in it goes to the next handler, whatever the
  manager runs and whatever the checker says.
\<close>

theorem excluded_paths_never_proxied:
  "(shouldSkipSSRProxy path \<longleftrightarrow>
      path \<in> {''/robots.txt'', ''/sitemap.xml'', ''/rss.xml'', ''/feed.xml'', ''/atom.xml''} \<or>
      prefix ''/api/'' path \<or> prefix ''/admin'' path \<or> prefix ''/login'' path \<or>
      prefix ''/admin-static/'' path \<or> prefix ''/admin-assets/'' path \<or>
      prefix ''/f/'' path \<or> prefix ''/needcache/'' path) \<and>
   (shouldSkipSSRProxy path \<longrightarrow> SSRProxyMiddleware mgr chk path = Next)"
proof -
  have a: "shouldSkipSSRProxy path \<longleftrightarrow>
      path \<in> {''/robots.txt'', ''/sitemap.xml'', ''/rss.xml'', ''/feed.xml'', ''/atom.xml''} \<or>
      prefix ''/api/'' path \<or> prefix ''/admin'' path \<or> prefix ''/login'' path \<or>
      prefix ''/admin-static/'' path \<or> prefix ''/admin-assets/'' path \<or>
      prefix ''/f/'' path \<or> prefix ''/needcache/'' path"
    by (auto simp add: shouldSkipSSRProxy_def exactPaths_def skipPrefixes_def)
  have b: "shouldSkipSSRProxy path \<longrightarrow> SSRProxyMiddleware mgr chk path = Next"
    by (simp add: SSRProxyMiddleware_def split: option.splits)
  from a b show ?thesis by blast
qed

theorem excluded_paths_never_proxied_witness:
  "shouldSkipSSRProxy ''/robots.txt'' \<and>
   IsRunning mgr_nova ''nova'' \<and>
   SSRProxyMiddleware (Some mgr_nova) (Some (''nova'', True)) ''/robots.txt'' = Next \<and>
   SSRProxyMiddleware (Some mgr_nova) (Some (''nova'', True)) ''/api/posts'' = Next"
proof -
  have h1: "shouldSkipSSRProxy ''/robots.txt''" "shouldSkipSSRProxy ''/api/posts''"
    by (simp_all add: shouldSkipSSRProxy_def exactPaths_def skipPrefixes_def)
  have h2: "IsRunning mgr_nova ''nova''"
    by (simp add: IsRunning_def live_process_def mgr_nova_def)
  from excluded_paths_never_proxied [of "''/robots.txt''" "Some mgr_nova" "Some (''nova'', True)"]
    excluded_paths_never_proxied [of "''/api/posts''" "Some mgr_nova" "Some (''nova'', True)"]
    h1 h2
  show ?thesis by blast
qed

section \<open>Properties of the theme service\<close>

lemma db_svc_note [simp]: "db (svc_note evs s) = db s"
  by (simp add: svc_note_def)

lemma svc_log_svc_note [simp]: "svc_log (svc_note evs s) = svc_log s @ evs"
  by (simp add: svc_note_def)

lemma svc_note_svc_note [simp]: "svc_note b (svc_note a s) = svc_note (a @ b) s"
  by (simp add: svc_note_def)

lemma filter_CallStop_map [simp]: "filter is_CallStop (map CallStop ns) = map CallStop ns"
  by (induction ns) auto

lemma filter_CallStart_map [simp]: "filter is_CallStart (map CallStop ns) = []"
  by (induction ns) auto

lemma Stop_live_other:
  "n' \<noteq> n \<Longrightarrow> live_process (processes (snd (Stop env m n))) n' = live_process (processes m) n'"
  by (simp add: Stop_def Let_def split: option.splits)

lemma Stop_signals:
  "live_process (processes m) n = Some pd \<Longrightarrow> Sigterm pd \<in> set (events (snd (Stop env m n)))"
  by (simp add: Stop_def Let_def)





lemma stop_others_props:
  "stop_others env t names (s, m) = (s1, m1) \<Longrightarrow>
   db s1 = db s \<and> live_process (processes m1) t = live_process (processes m) t \<and>
   svc_log s1 = svc_log s @ map CallStop (filter (\<lambda>n. n \<noteq> t) names)"
proof (induction names arbitrary: s m)
  case Nil
  then show ?case by simp
next
  case (Cons a names)
  show ?case
  proof (cases "a = t")
    case True
    with Cons.prems have "stop_others env t names (s, m) = (s1, m1)" by simp
    from Cons.IH [OF this] True show ?thesis by simp
  next
    case False
    with Cons.prems have
      "stop_others env t names (svc_note [CallStop a] s, snd (Stop env m a)) = (s1, m1)"
      by simp
    from Cons.IH [OF this] False show ?thesis
      by (simp add: Stop_live_other)
  qed
qed






text \<open>
  \<open>SwitchToSSRTheme\<close> once the theme is found and the other themes are stopped.
\<close>

lemma SwitchToSSRTheme_unfold:
  assumes "\<not> query_fails sv" and "find_theme (db s) uid name = Some th"
    and "stop_others env name (ListRunning m) (svc_note [DbQueryTheme uid name] s, m) = (s1, m1)"
  shows "SwitchToSSRTheme sv env s (Some m) uid name =
     (if begin_fails sv then (Inl TxBeginFailed, svc_note [TxBegin] s1, Some m1)
      else if clear_fails sv
      then (Inl ClearCurrentFailed, svc_note [TxBegin, TxClearCurrent uid, TxRollback] s1, Some m1)
      else if set_current_fails sv
      then (Inl SetCurrentFailed,
            svc_note [TxBegin, TxClearCurrent uid, TxSetCurrent (row_id th), TxRollback] s1, Some m1)
      else if IsRunning m1 name
      then (if commit_fails sv
            then (Inl CommitFailed,
                  svc_note [TxBegin, TxClearCurrent uid, TxSetCurrent (row_id th), TxCommit,
                            CallStop name] s1,
                  Some (snd (Stop env m1 name)))
            else (Inr (),
                  (svc_note [TxBegin, TxClearCurrent uid, TxSetCurrent (row_id th), TxCommit] s1)
                    \<lparr>db := set_current (row_id th) (clear_current uid (db s1))\<rparr>,
                  Some m1))
      else (case fst (Start env m1 name 3000) of
              Inl e \<Rightarrow>
                (Inl (StartFailed e),
                 svc_note [TxBegin, TxClearCurrent uid, TxSetCurrent (row_id th),
                           CallStart name 3000, TxRollback] s1,
                 Some (snd (Start env m1 name 3000)))
            | Inr u \<Rightarrow>
                if commit_fails sv
                then (Inl CommitFailed,
                      svc_note [TxBegin, TxClearCurrent uid, TxSetCurrent (row_id th),
                                CallStart name 3000, TxCommit, CallStop name] s1,
                      Some (snd (Stop env (snd (Start env m1 name 3000)) name)))
                else (Inr (),
                      (svc_note [TxBegin, TxClearCurrent uid, TxSetCurrent (row_id th),
                                 CallStart name 3000, TxCommit] s1)
                        \<lparr>db := set_current (row_id th) (clear_current uid (db s1))\<rparr>,
                      Some (snd (Start env m1 name 3000)))))"
  using assms
  by (cases "Start env m1 name 3000")
     (simp add: SwitchToSSRTheme_def Let_def start_target_def split: sum.splits)



text \<open>
  C10. When everything up to the commit succeeds and the commit fails, the target is
  stopped whether or not this call started it. For a target that was already running
  when the call was made: the call makes no \<open>Start\<close>, it returns the commit error with
  the persisted flags as they were, its last call is \<open>Stop\<close> of the target, the
  target's process has been sent SIGTERM and the target is no longer running.
\<close>

theorem commit_failure_stops_running_target:
  assumes found: "find_theme (db s) uid name = Some th" and q: "\<not> query_fails sv"
    and ok: "\<not> begin_fails sv" "\<not> clear_fails sv" "\<not> set_current_fails sv"
    and cf: "commit_fails sv"
    and run: "live_process (processes m) name = Some pd"
    and R: "SwitchToSSRTheme sv env s (Some m) uid name = (res, s', mgr')"
  shows "res = Inl CommitFailed \<and> db s' = db s \<and>
    (\<exists>m'. mgr' = Some m' \<and> \<not> IsRunning m' name \<and> Sigterm pd \<in> set (events m')) \<and>
    (\<exists>new. svc_log s' = svc_log s @ new \<and> filter is_CallStart new = [] \<and>
       last new = CallStop name)"
proof -
  obtain s1 m1 where
    so: "stop_others env name (ListRunning m) (svc_note [DbQueryTheme uid name] s, m) = (s1, m1)"
    by (cases "stop_others env name (ListRunning m) (svc_note [DbQueryTheme uid name] s, m)")
  from stop_others_props [OF so] have d1: "db s1 = db s"
    and l1: "live_process (processes m1) name = Some pd"
    and g1: "svc_log s1 = svc_log s @ DbQueryTheme uid name #
               map CallStop (filter (\<lambda>n. n \<noteq> name) (ListRunning m))"
    using run by simp_all
  from l1 have r1: "IsRunning m1 name"
    by (simp add: IsRunning_def)
  from SwitchToSSRTheme_unfold [OF q found so, unfolded R] ok cf r1
  have res: "res = Inl CommitFailed"
    and s': "s' = svc_note [TxBegin, TxClearCurrent uid, TxSetCurrent (row_id th), TxCommit,
                            CallStop name] s1"
    and m': "mgr' = Some (snd (Stop env m1 name))"
    by simp_all
  have a: "db s' = db s"
    using s' d1 by simp
  have b: "\<not> IsRunning (snd (Stop env m1 name)) name"
    by (rule Stop_not_running_after)
  have c: "Sigterm pd \<in> set (events (snd (Stop env m1 name)))"
    by (rule Stop_signals [OF l1])
  let ?new = "DbQueryTheme uid name # map CallStop (filter (\<lambda>n. n \<noteq> name) (ListRunning m)) @
     [TxBegin, TxClearCurrent uid, TxSetCurrent (row_id th), TxCommit, CallStop name]"
  have d: "svc_log s' = svc_log s @ ?new \<and> filter is_CallStart ?new = [] \<and> last ?new = CallStop name"
    using s' g1 by simp
  from res a b c d m' show ?thesis by blast
qed

theorem commit_failure_stops_running_target_witness:
  "find_theme (db svc0) 1 ''nova'' = Some row_nova \<and>
   commit_fails sv_commit_fails \<and>
   live_process (processes mgr_nova) ''nova'' = Some 7 \<and>
   IsRunning mgr_nova ''nova'' \<and>
   fst (SwitchToSSRTheme sv_commit_fails env_ok svc0 (Some mgr_nova) 1 ''nova'') = Inl CommitFailed \<and>
   db (fst (snd (SwitchToSSRTheme sv_commit_fails env_ok svc0 (Some mgr_nova) 1 ''nova''))) = db svc0 \<and>
   (\<exists>m'. snd (snd (SwitchToSSRTheme sv_commit_fails env_ok svc0 (Some mgr_nova) 1 ''nova'')) = Some m' \<and>
      \<not> IsRunning m' ''nova'' \<and> Sigterm 7 \<in> set (events m'))"
proof -
  have h1: "find_theme (db svc0) 1 ''nova'' = Some row_nova"
    by (simp add: find_theme_def svc0_def row_nova_def)
  have h2: "\<not> query_fails sv_commit_fails" "\<not> begin_fails sv_commit_fails"
    "\<not> clear_fails sv_commit_fails" "\<not> set_current_fails sv_commit_fails"
    "commit_fails sv_commit_fails"
    by (simp_all add: sv_commit_fails_def sv_ok_def)
  have h3: "live_process (processes mgr_nova) ''nova'' = Some 7"
    by (simp add: live_process_def mgr_nova_def)
  have h4: "IsRunning mgr_nova ''nova''"
    by (simp add: IsRunning_def h3)
  have r1: "SwitchToSSRTheme sv_commit_fails env_ok svc0 (Some mgr_nova) 1 ''nova'' =
      (fst (SwitchToSSRTheme sv_commit_fails env_ok svc0 (Some mgr_nova) 1 ''nova''),
       fst (snd (SwitchToSSRTheme sv_commit_fails env_ok svc0 (Some mgr_nova) 1 ''nova'')),
       snd (snd (SwitchToSSRTheme sv_commit_fails env_ok svc0 (Some mgr_nova) 1 ''nova'')))"
    by simp
  from commit_failure_stops_running_target [OF h1 h2 h3 r1] h1 h2 h3 h4
  show ?thesis by blast
qed

end
